theory Spec2Isabelle
  imports Complex_Main
begin

section \<open>Data model\<close>

text \<open>
  The script \<^verbatim>\<open>param_fitting/param_constraints.py\<close> works on numpy and jax arrays of
  64-bit floats. Array entries are modelled as \<^typ>\<open>real\<close>: comparisons and the
  arithmetic of the script are those of the real numbers, so binary64 rounding, NaN and
  infinities are outside the model. A two-dimensional array is the list of its rows.
  An array of shape \<open>(n, 2)\<close> built from two-element Python lists is a list of pairs.
\<close>

type_synonym table = "real list list"

type_synonym exp_setup = "real \<times> real"

type_synonym measurement = "real \<times> real"

text \<open>
  Exceptions are values. \<open>IndexError k ax sz\<close> is numpy's
  "index k is out of bounds for axis ax with size sz"; \<open>TooManyIndices\<close> is raised when
  a one-dimensional array is indexed with two indices; \<open>BroadcastError\<close> is raised when
  two shapes cannot be broadcast together.
\<close>

datatype error =
    IndexError nat nat nat
  | TooManyIndices
  | BroadcastError

fun andthen :: "error + 'a \<Rightarrow> ('a \<Rightarrow> error + 'b) \<Rightarrow> error + 'b" where
  "andthen (Inl e) f = Inl e"
| "andthen (Inr x) f = f x"

text \<open>\<open>xs[k]\<close> for a one-dimensional array and a non-negative index.\<close>

definition at1 :: "real list \<Rightarrow> nat \<Rightarrow> error + real" where
  "at1 xs k = (if k < length xs then Inr (xs ! k) else Inl (IndexError k 0 (length xs)))"

text \<open>\<open>a[i, j]\<close> for a two-dimensional array; axis 0 is checked first.\<close>

definition at2 :: "table \<Rightarrow> nat \<Rightarrow> nat \<Rightarrow> error + real" where
  "at2 a i j =
     (if i < length a then
        (if j < length (a ! i) then Inr (a ! i ! j)
         else Inl (IndexError j 1 (length (a ! i))))
      else Inl (IndexError i 0 (length a)))"

section \<open>Library functions used by the script\<close>

text \<open>
  \<open>numpy.linspace(start, stop, num)\<close> with the default \<open>endpoint=True\<close>: \<open>num\<close>
  samples, the first \<open>num - 1\<close> computed from the step, the last one set to \<open>stop\<close>.
  \<open>jax.numpy.linspace\<close> returns the same samples.
\<close>

definition linspace :: "real \<Rightarrow> real \<Rightarrow> nat \<Rightarrow> real list" where
  "linspace start stop num =
     (if num = 0 then []
      else if num = 1 then [start]
      else map (\<lambda>k. start + real k * ((stop - start) / real (num - 1))) [0..<num - 1] @ [stop])"

text \<open>\<open>numpy.logspace(start, stop, num)\<close> with the default base 10.\<close>

definition logspace :: "real \<Rightarrow> real \<Rightarrow> nat \<Rightarrow> real list" where
  "logspace start stop num = map (\<lambda>y. 10 powr y) (linspace start stop num)"

section \<open>Experimental Data Loader (lines 121 to 141)\<close>

definition cutoff_growthrate :: real where
  "cutoff_growthrate = 0.3"

definition par_xs :: "real list" where
  "par_xs = logspace (log 10 0.08) (log 10 0.5) 6"

text \<open>
  The body of the loop over the rows. \<open>int(i / 5)\<close> is the truncated quotient of a
  non-negative integer, that is \<open>i div 5\<close>. The reads happen in the order of the source:
  the growth rate for the test, the nutrient quality, column 3, then columns 0 and 2.
\<close>

fun read_row :: "table \<Rightarrow> nat \<Rightarrow> exp_setup list \<times> measurement list
    \<Rightarrow> error + (exp_setup list \<times> measurement list)" where
  "read_row dataset i (read_setups, read_measurements) =
     andthen (at2 dataset i 0) (\<lambda>g.
       if g > cutoff_growthrate then
         andthen (at1 par_xs (i div 5)) (\<lambda>par_x.
         andthen (at2 dataset i 3) (\<lambda>raw.
           let h = raw * 1000 in
           andthen (at2 dataset i 0) (\<lambda>l.
           andthen (at2 dataset i 2) (\<lambda>phi_r.
             Inr (read_setups @ [(par_x, h)], read_measurements @ [(l, phi_r)])))))
       else Inr (read_setups, read_measurements))"

text \<open>The \<open>for\<close> loop over \<open>range(0, dataset.shape[0])\<close>; an exception ends it.\<close>

fun read_rows :: "table \<Rightarrow> nat list \<Rightarrow> exp_setup list \<times> measurement list
    \<Rightarrow> error + (exp_setup list \<times> measurement list)" where
  "read_rows dataset [] acc = Inr acc"
| "read_rows dataset (i # rest) acc =
     andthen (read_row dataset i acc) (\<lambda>acc'. read_rows dataset rest acc')"

definition load_experimental_data :: "table \<Rightarrow> error + (exp_setup list \<times> measurement list)" where
  "load_experimental_data dataset = read_rows dataset [0..<length dataset] ([], [])"

section \<open>Measurement errors (lines 144 to 158)\<close>

text \<open>
  The second loop runs over the rows of \<open>dataset\<close> again and reads the row-aligned
  \<open>error_dataset\<close>: the errors of the growth rate and of the ribosome fraction
  (columns 0 and 2) and the two replicate counts (columns 4 and 5).
\<close>

fun read_error_row :: "table \<Rightarrow> table \<Rightarrow> nat \<Rightarrow> (real \<times> real) list \<times> (real \<times> real) list
    \<Rightarrow> error + ((real \<times> real) list \<times> (real \<times> real) list)" where
  "read_error_row dataset error_dataset i (read_unscaled_errors, read_replicates) =
     andthen (at2 dataset i 0) (\<lambda>g.
       if g > cutoff_growthrate then
         andthen (at2 error_dataset i 0) (\<lambda>e0.
         andthen (at2 error_dataset i 2) (\<lambda>e2.
         andthen (at2 error_dataset i 4) (\<lambda>r4.
         andthen (at2 error_dataset i 5) (\<lambda>r5.
           Inr (read_unscaled_errors @ [(e0, e2)], read_replicates @ [(r4, r5)])))))
       else Inr (read_unscaled_errors, read_replicates))"

fun read_error_rows :: "table \<Rightarrow> table \<Rightarrow> nat list \<Rightarrow> (real \<times> real) list \<times> (real \<times> real) list
    \<Rightarrow> error + ((real \<times> real) list \<times> (real \<times> real) list)" where
  "read_error_rows dataset error_dataset [] acc = Inr acc"
| "read_error_rows dataset error_dataset (i # rest) acc =
     andthen (read_error_row dataset error_dataset i acc)
       (\<lambda>acc'. read_error_rows dataset error_dataset rest acc')"

text \<open>The column slice \<open>a[:, j]\<close> of a two-dimensional array.\<close>

definition column :: "table \<Rightarrow> nat \<Rightarrow> error + real list" where
  "column a j =
     (case filter (\<lambda>row. \<not> j < length row) a of
        [] \<Rightarrow> Inr (map (\<lambda>row. row ! j) a)
      | row # _ \<Rightarrow> Inl (IndexError j 1 (length row)))"

text \<open>
  \<open>ndarray.mean()\<close>: the sum over the number of entries. On an empty array numpy
  returns NaN with a warning; no run that gets as far as a retained row has an empty
  error table.
\<close>

definition mean :: "real list \<Rightarrow> real" where
  "mean xs = sum_list xs / real (length xs)"

text \<open>
  Line 158: \<open>jnp.ones(unscaled_errors.shape) * jnp.array([[m0, m2]])\<close>, where \<open>m0\<close> and
  \<open>m2\<close> are the means of columns 0 and 2 of the whole error table. With at least one
  retained row \<open>unscaled_errors\<close> has shape \<open>(n, 2)\<close>, and the product broadcasts the
  pair to every row. With none it has shape \<open>(0,)\<close>, which does not broadcast against
  \<open>(1, 2)\<close>.
\<close>

definition exp_errors_of :: "(real \<times> real) list \<Rightarrow> table \<Rightarrow> error + (real \<times> real) list" where
  "exp_errors_of unscaled_errors error_dataset =
     andthen (column error_dataset 0) (\<lambda>c0.
     andthen (column error_dataset 2) (\<lambda>c2.
       if unscaled_errors = [] then Inl BroadcastError
       else Inr (map (\<lambda>_. (1 * mean c0, 1 * mean c2)) unscaled_errors)))"

record error_tables =
  unscaled_errors :: "(real \<times> real) list"
  replicates :: "(real \<times> real) list"
  exp_errors :: "(real \<times> real) list"

definition load_measurement_errors :: "table \<Rightarrow> table \<Rightarrow> error + error_tables" where
  "load_measurement_errors dataset error_dataset =
     andthen (read_error_rows dataset error_dataset [0..<length dataset] ([], []))
       (\<lambda>(us, rs).
          andthen (exp_errors_of us error_dataset)
            (\<lambda>es. Inr \<lparr>unscaled_errors = us, replicates = rs, exp_errors = es\<rparr>))"

section \<open>State Vector Constructor (lines 162 to 165)\<close>

text \<open>
  \<open>x0_default\<close> comes from the cell model, which is outside this file: it is a
  parameter. \<open>a.at[:, c].set(vals)\<close> returns a new array with column \<open>c\<close> replaced;
  jax drops an update whose index is out of bounds, as \<open>list_update\<close> does.
  \<open>setups[:, 0]\<close> needs a two-dimensional array: \<open>jnp.array([])\<close> has one dimension.
\<close>

definition at_col_set :: "table \<Rightarrow> nat \<Rightarrow> real list \<Rightarrow> table" where
  "at_col_set a c vals = map (\<lambda>(row, v). row[c := v]) (zip a vals)"

record x0_tables =
  x0_default_of :: "real list"
  x0s_unswapped :: table
  x0s_swapped_s_values :: table
  x0s :: table

definition construct_x0s :: "real list \<Rightarrow> exp_setup list \<Rightarrow> error + x0_tables" where
  "construct_x0s x0_default setups =
     (let unswapped = replicate (length setups) (map (\<lambda>x. 1 * x) x0_default) in
      if setups = [] then Inl TooManyIndices
      else
        let swapped_s = at_col_set unswapped 7 (map fst setups);
            swapped_h = at_col_set swapped_s 8 (map snd setups)
        in Inr \<lparr>x0_default_of = x0_default, x0s_unswapped = unswapped,
                 x0s_swapped_s_values = swapped_s, x0s = swapped_h\<rparr>)"

section \<open>Batch Steady-State Integrator: the configuration (lines 167 to 191)\<close>

text \<open>
  The integrator is diffrax's \<open>diffeqsolve\<close>; the script only fixes its arguments.
  The solvers are listed with the order and kind that diffrax documents for them.
\<close>

datatype solver = Euler | Heun | Tsit5 | Dopri5 | Dopri8 | ImplicitEuler | Kvaerno5

fun solver_order :: "solver \<Rightarrow> nat" where
  "solver_order Euler = 1"
| "solver_order Heun = 2"
| "solver_order Tsit5 = 5"
| "solver_order Dopri5 = 5"
| "solver_order Dopri8 = 8"
| "solver_order ImplicitEuler = 1"
| "solver_order Kvaerno5 = 5"

fun explicit_runge_kutta :: "solver \<Rightarrow> bool" where
  "explicit_runge_kutta ImplicitEuler = False"
| "explicit_runge_kutta Kvaerno5 = False"
| "explicit_runge_kutta _ = True"

datatype stepsize_control = ConstantStepSize | PIDController real real

fun adaptive :: "stepsize_control \<Rightarrow> bool" where
  "adaptive ConstantStepSize = False"
| "adaptive (PIDController r a) = True"

datatype terminating_event = SteadyStateEvent real real

record diffeqsolve_call =
  call_solver :: solver
  call_t0 :: real
  call_t1 :: real
  call_dt0 :: real
  call_y0 :: "real list"
  call_max_steps :: "nat option"
  call_discrete_terminating_event :: "terminating_event option"
  call_stepsize_controller :: stepsize_control

definition tf :: "real \<times> real" where
  "tf = (0, 48)"

definition dt_max :: real where
  "dt_max = 0.1"

definition rtol :: real where
  "rtol = 1 / 10 ^ 6"

definition atol :: real where
  "atol = 1 / 10 ^ 6"

definition stepsize_controller :: stepsize_control where
  "stepsize_controller = PIDController rtol atol"

definition steady_state_stop :: terminating_event where
  "steady_state_stop = SteadyStateEvent 0.001 0.001"

definition diffeqsolve_forx0 :: "real list \<Rightarrow> diffeqsolve_call" where
  "diffeqsolve_forx0 x0 =
     \<lparr>call_solver = Dopri5, call_t0 = fst tf, call_t1 = snd tf, call_dt0 = 0.1, call_y0 = x0,
      call_max_steps = None, call_discrete_terminating_event = Some steady_state_stop,
      call_stepsize_controller = stepsize_controller\<rparr>"

section \<open>Parameter vectors and Grid Sweep Driver (lines 205 to 222)\<close>

text \<open>The entries of the cell model's parameter dictionary that the script reads.\<close>

record params =
  a_r :: real
  a_a :: real
  K_e :: real
  nu_max :: real
  kcm :: real

definition parvec_default :: "params \<Rightarrow> real list" where
  "parvec_default par = map ln [a_r par / a_a par, K_e par, nu_max par, kcm par]"

definition K_range :: "params \<Rightarrow> real list" where
  "K_range par = map (\<lambda>x. x + ln (K_e par)) (linspace (ln 0.1) (ln 30) 51)"

definition kcm_range :: "params \<Rightarrow> real list" where
  "kcm_range par = map (\<lambda>x. x + ln (kcm par)) (linspace (ln 0.1) (ln 30) 51)"

text \<open>
  \<open>xs[k]\<close> on a jax array clamps an index beyond the end; \<open>xs.at[k].set(v)\<close> drops
  an update beyond the end. \<open>a[i, j] = v\<close> on a numpy array raises there.
\<close>

definition jnp_at :: "real list \<Rightarrow> nat \<Rightarrow> real" where
  "jnp_at xs k = xs ! min k (length xs - 1)"

definition at_set :: "real list \<Rightarrow> nat \<Rightarrow> real \<Rightarrow> real list" where
  "at_set xs k v = xs[k := v]"

definition set2 :: "table \<Rightarrow> nat \<Rightarrow> nat \<Rightarrow> real \<Rightarrow> error + table" where
  "set2 a i j v =
     (if i < length a then
        (if j < length (a ! i) then Inr (a[i := (a ! i)[j := v]])
         else Inl (IndexError j 1 (length (a ! i))))
      else Inl (IndexError i 0 (length a)))"

definition zeros :: "nat \<Rightarrow> nat \<Rightarrow> table" where
  "zeros n m = replicate n (replicate m 0)"

text \<open>
  The objective function \<open>minus_sos\<close> closes over the tables built above and calls
  \<open>minus_sos_for_parvec\<close> of the fitting module, which is a parameter here.
\<close>

definition minus_sos :: "(real list \<Rightarrow> table \<Rightarrow> measurement list \<Rightarrow> (real \<times> real) list \<Rightarrow> real)
    \<Rightarrow> table \<Rightarrow> measurement list \<Rightarrow> (real \<times> real) list \<Rightarrow> real list \<Rightarrow> real" where
  "minus_sos minus_sos_for_parvec xs exp_measurements errs =
     (\<lambda>parvec. minus_sos_for_parvec parvec xs exp_measurements errs)"

text \<open>The sweep writes one cell of \<open>loglikes\<close> and prints the index pair.\<close>

record sweep_state =
  loglikes :: table
  printed :: "(nat \<times> nat) list"

fun sweep_row :: "(real list \<Rightarrow> real) \<Rightarrow> real list \<Rightarrow> real list \<Rightarrow> real list \<Rightarrow> nat \<Rightarrow> nat list
    \<Rightarrow> sweep_state \<Rightarrow> error + sweep_state" where
  "sweep_row f pd Ks ks i [] st = Inr st"
| "sweep_row f pd Ks ks i (j # rest) st =
     andthen (set2 (loglikes st) i j (f (at_set (at_set pd 1 (jnp_at Ks i)) 3 (jnp_at ks j))))
       (\<lambda>a. sweep_row f pd Ks ks i rest (st\<lparr>loglikes := a, printed := printed st @ [(i, j)]\<rparr>))"

fun sweep_rows :: "(real list \<Rightarrow> real) \<Rightarrow> real list \<Rightarrow> real list \<Rightarrow> real list \<Rightarrow> nat list \<Rightarrow> nat list
    \<Rightarrow> sweep_state \<Rightarrow> error + sweep_state" where
  "sweep_rows f pd Ks ks [] js st = Inr st"
| "sweep_rows f pd Ks ks (i # rest) js st =
     andthen (sweep_row f pd Ks ks i js st) (\<lambda>st'. sweep_rows f pd Ks ks rest js st')"

definition grid_sweep :: "(real list \<Rightarrow> real) \<Rightarrow> params \<Rightarrow> error + sweep_state" where
  "grid_sweep f par =
     (let Ks = K_range par; ks = kcm_range par in
      sweep_rows f (parvec_default par) Ks ks [0..<length Ks] [0..<length ks]
        \<lparr>loglikes = zeros (length Ks) (length ks), printed = []\<rparr>)"

section \<open>Vocabulary of the theorems\<close>

text \<open>
  Row \<open>i\<close> is retained when its growth rate (column 0) exceeds the cutoff;
  \<open>retained_rows\<close> lists the retained row indices in increasing order.
  \<open>has_shape a n m\<close> says that \<open>a\<close> has \<open>n\<close> rows of \<open>m\<close> entries, and
  \<open>candidate\<close> is the parameter vector of grid point \<open>(i, j)\<close>.
  The \<open>example\<close> tables are small inputs on which the theorems are instantiated.
\<close>

definition retained :: "table \<Rightarrow> nat \<Rightarrow> bool" where
  "retained dataset i = (cutoff_growthrate < dataset ! i ! 0)"

definition retained_rows :: "table \<Rightarrow> nat list" where
  "retained_rows dataset = filter (retained dataset) [0..<length dataset]"

definition example_dataset :: table where
  "example_dataset = [[0.5, 0, 0.2, 0.01], [0.1, 0, 0.3, 0.02], [0.4, 0, 0.25, 0.05]]"

definition has_shape :: "table \<Rightarrow> nat \<Rightarrow> nat \<Rightarrow> bool" where
  "has_shape a n m = (length a = n \<and> (\<forall>row\<in>set a. length row = m))"

definition candidate :: "real list \<Rightarrow> real list \<Rightarrow> real list \<Rightarrow> nat \<Rightarrow> nat \<Rightarrow> real list" where
  "candidate pd Ks ks i j = pd[1 := Ks ! i, 3 := ks ! j]"

definition example_error_dataset :: table where
  "example_error_dataset =
     [[0.02, 0, 0.01, 0, 4, 4], [0.04, 0, 0.03, 0, 4, 4], [0.06, 0, 0.02, 0, 1, 1]]"

definition example_x0_default :: "real list" where
  "example_x0_default = [10, 11, 12, 13, 14, 15, 16, 17, 18, 19]"

definition example_setups :: "exp_setup list" where
  "example_setups = [(0.5, 10), (0.08, 0)]"

section \<open>Facts about the Experimental Data Loader\<close>

lemma length_linspace: "length (linspace a b n) = n"
  by (simp add: linspace_def)

lemma length_par_xs: "length par_xs = 6"
  by (simp add: par_xs_def logspace_def length_linspace)

lemma at2_Inr: "at2 a i j = Inr v \<longleftrightarrow> i < length a \<and> j < length (a ! i) \<and> v = a ! i ! j"
  by (auto simp: at2_def)

lemma at1_Inr: "at1 xs k = Inr v \<longleftrightarrow> k < length xs \<and> v = xs ! k"
  by (auto simp: at1_def)

lemma andthen_Inr: "andthen m f = Inr y \<longleftrightarrow> (\<exists>x. m = Inr x \<and> f x = Inr y)"
  by (cases m) auto

lemma read_row_Inr:
  assumes "read_row ds i (S, M) = Inr (S', M')"
  shows "i < length ds \<and> 0 < length (ds ! i) \<and>
         (if retained ds i
          then S' = S @ [(par_xs ! (i div 5), ds ! i ! 3 * 1000)] \<and> M' = M @ [(ds ! i ! 0, ds ! i ! 2)]
               \<and> i div 5 < 6 \<and> 3 < length (ds ! i)
          else S' = S \<and> M' = M)"
  using assms
  by (auto simp: andthen_Inr at2_Inr at1_Inr retained_def Let_def length_par_xs split: if_splits)

lemma read_rows_Inr:
  "read_rows ds js (S, M) = Inr (S', M') \<Longrightarrow>
     S' = S @ map (\<lambda>i. (par_xs ! (i div 5), ds ! i ! 3 * 1000)) (filter (retained ds) js) \<and>
     M' = M @ map (\<lambda>i. (ds ! i ! 0, ds ! i ! 2)) (filter (retained ds) js) \<and>
     (\<forall>i\<in>set js. i < length ds \<and> 0 < length (ds ! i) \<and> (retained ds i \<longrightarrow> i div 5 < 6 \<and> 3 < length (ds ! i)))"
proof (induction js arbitrary: S M)
  case Nil
  then show ?case by simp
next
  case (Cons i js)
  from Cons.prems obtain S1 M1 where
    step: "read_row ds i (S, M) = Inr (S1, M1)" and rest: "read_rows ds js (S1, M1) = Inr (S', M')"
    by (auto simp: andthen_Inr)
  note r = read_row_Inr[OF step] and ih = Cons.IH[OF rest]
  show ?case
  proof (cases "retained ds i")
    case True
    with r ih show ?thesis by simp
  next
    case False
    with r ih show ?thesis by simp
  qed
qed

lemma read_row_ok:
  assumes "i < length ds" "0 < length (ds ! i)" "retained ds i \<longrightarrow> i div 5 < 6 \<and> 3 < length (ds ! i)"
  shows "\<exists>acc'. read_row ds i acc = Inr acc'"
  using assms
  by (cases acc) (auto simp: at2_def at1_def retained_def Let_def length_par_xs)

lemma read_rows_ok:
  "(\<forall>i\<in>set js. i < length ds \<and> 0 < length (ds ! i) \<and> (retained ds i \<longrightarrow> i div 5 < 6 \<and> 3 < length (ds ! i)))
    \<Longrightarrow> \<exists>acc'. read_rows ds js acc = Inr acc'"
proof (induction js arbitrary: acc)
  case Nil
  then show ?case by simp
next
  case (Cons i js)
  then obtain acc1 where "read_row ds i acc = Inr acc1"
    using read_row_ok[of i ds acc] by auto
  with Cons show ?case by simp
qed

lemma read_row_Inl_wide:
  assumes "read_row ds i acc = Inl e" "i < length ds" "4 \<le> length (ds ! i)"
  shows "retained ds i \<and> 30 \<le> i \<and> e = IndexError (i div 5) 0 6"
  using assms
  by (cases acc) (auto simp: at2_def at1_def Let_def retained_def length_par_xs split: if_splits)

lemma read_rows_Inl_wide:
  "read_rows ds js acc = Inl e \<Longrightarrow> \<forall>i\<in>set js. i < length ds \<and> 4 \<le> length (ds ! i) \<Longrightarrow>
     \<exists>i\<in>set js. retained ds i \<and> 30 \<le> i \<and> e = IndexError (i div 5) 0 6"
proof (induction js arbitrary: acc)
  case Nil
  then show ?case by simp
next
  case (Cons i js)
  show ?case
  proof (cases "read_row ds i acc")
    case (Inl e')
    with Cons.prems have "e' = e" by simp
    with Inl Cons.prems(2) read_row_Inl_wide[of ds i acc e] show ?thesis by simp
  next
    case (Inr acc1)
    with Cons.prems have "read_rows ds js acc1 = Inl e" by simp
    from Cons.IH[OF this] Cons.prems(2) show ?thesis by auto
  qed
qed




lemma load_Inr:
  assumes "load_experimental_data ds = Inr (S, M)"
  shows "S = map (\<lambda>i. (par_xs ! (i div 5), ds ! i ! 3 * 1000)) (retained_rows ds)"
    and "M = map (\<lambda>i. (ds ! i ! 0, ds ! i ! 2)) (retained_rows ds)"
    and "\<forall>i<length ds. 0 < length (ds ! i) \<and> (retained ds i \<longrightarrow> i div 5 < 6 \<and> 3 < length (ds ! i))"
  using read_rows_Inr[OF assms[unfolded load_experimental_data_def]]
  by (simp_all add: retained_rows_def)

lemma example_load:
  "load_experimental_data example_dataset
     = Inr ([(par_xs ! 0, 10), (par_xs ! 0, 50)], [(0.5, 0.2), (0.4, 0.25)])"
  by (simp add: example_dataset_def load_experimental_data_def upt_rec at2_def at1_def length_par_xs cutoff_growthrate_def)


text \<open>
  Claim C2. When the loader returns, the measurements it emitted are exactly those of the
  rows whose growth rate is strictly above 0.3, one pair per such row and in row order,
  with one setup per measurement; so no more pairs are retained than there are rows.
\<close>

theorem loader_retains_rows_above_cutoff:
  assumes "load_experimental_data dataset = Inr (setups, exp_measurements)"
  shows "exp_measurements =
           map (\<lambda>i. (dataset ! i ! 0, dataset ! i ! 2))
             (filter (\<lambda>i. dataset ! i ! 0 > 0.3) [0..<length dataset])
         \<and> length setups = length (filter (\<lambda>i. dataset ! i ! 0 > 0.3) [0..<length dataset])
         \<and> length exp_measurements = length setups
         \<and> length setups \<le> length dataset"
proof -
  have rr: "retained_rows dataset = filter (\<lambda>i. dataset ! i ! 0 > 0.3) [0..<length dataset]"
    unfolding retained_rows_def retained_def[abs_def] cutoff_growthrate_def ..
  have "length (filter (\<lambda>i. dataset ! i ! 0 > 0.3) [0..<length dataset]) \<le> length [0..<length dataset]"
    by (rule length_filter_le)
  then show ?thesis
    using load_Inr(1,2)[OF assms] by (simp add: rr)
qed

theorem loader_retains_rows_above_cutoff_witness:
  "load_experimental_data example_dataset
     = Inr ([(par_xs ! 0, 10), (par_xs ! 0, 50)], [(0.5, 0.2), (0.4, 0.25)])
   \<and> ([(0.5, 0.2), (0.4, 0.25)] =
           map (\<lambda>i. (example_dataset ! i ! 0, example_dataset ! i ! 2))
             (filter (\<lambda>i. example_dataset ! i ! 0 > 0.3) [0..<length example_dataset])
         \<and> length [(par_xs ! 0, 10 :: real), (par_xs ! 0, 50)]
             = length (filter (\<lambda>i. example_dataset ! i ! 0 > 0.3) [0..<length example_dataset])
         \<and> length [(0.5 :: real, 0.2 :: real), (0.4, 0.25)]
             = length [(par_xs ! 0, 10 :: real), (par_xs ! 0, 50)]
         \<and> length [(par_xs ! 0, 10 :: real), (par_xs ! 0, 50)] \<le> length example_dataset)"
  by (rule conjI[OF example_load loader_retains_rows_above_cutoff[OF example_load]])





text \<open>
  Claim C10. \<open>par_xs\<close> has exactly six entries. On a table whose rows have at least
  four columns the loader returns if and only if every retained row has an index below
  30, and a retained row with index 30 or more makes it raise the index error of the
  lookup \<open>par_xs[int(i / 5)]\<close>.
\<close>

theorem lookup_fails_from_row_30:
  assumes "\<forall>row\<in>set dataset. 4 \<le> length row"
  shows "length par_xs = 6
         \<and> ((\<exists>setups exp_measurements. load_experimental_data dataset = Inr (setups, exp_measurements))
              \<longleftrightarrow> (\<forall>i<length dataset. retained dataset i \<longrightarrow> i < 30))
         \<and> ((\<exists>i<length dataset. retained dataset i \<and> 30 \<le> i) \<longrightarrow>
              (\<exists>i<length dataset. retained dataset i \<and> 30 \<le> i
                 \<and> load_experimental_data dataset = Inl (IndexError (i div 5) 0 6)))"
proof -
  have wide: "\<forall>i\<in>set [0..<length dataset]. i < length dataset \<and> 4 \<le> length (dataset ! i)"
    using assms by simp
  have ok: "\<exists>S M. load_experimental_data dataset = Inr (S, M)"
    if "\<forall>i<length dataset. retained dataset i \<longrightarrow> i < 30"
  proof -
    have "\<forall>i\<in>set [0..<length dataset]. i < length dataset \<and> 0 < length (dataset ! i) \<and>
            (retained dataset i \<longrightarrow> i div 5 < 6 \<and> 3 < length (dataset ! i))"
    proof
      fix i assume "i \<in> set [0..<length dataset]"
      then have i: "i < length dataset" by simp
      with assms have "4 \<le> length (dataset ! i)" by simp
      moreover have "retained dataset i \<longrightarrow> i div 5 < 6" using that i by auto
      ultimately show "i < length dataset \<and> 0 < length (dataset ! i) \<and>
            (retained dataset i \<longrightarrow> i div 5 < 6 \<and> 3 < length (dataset ! i))"
        using i by auto
    qed
    from read_rows_ok[OF this, of "([], [])"] show ?thesis
      by (auto simp: load_experimental_data_def)
  qed
  have bad: "\<exists>i<length dataset. retained dataset i \<and> 30 \<le> i
                 \<and> load_experimental_data dataset = Inl (IndexError (i div 5) 0 6)"
    if "\<exists>i<length dataset. retained dataset i \<and> 30 \<le> i"
  proof (cases "load_experimental_data dataset")
    case (Inl e)
    from read_rows_Inl_wide[OF Inl[unfolded load_experimental_data_def] wide] Inl
    show ?thesis by auto
  next
    case (Inr r)
    obtain S M where "r = (S, M)" by (cases r)
    with Inr load_Inr(3)[of dataset S M] that show ?thesis by fastforce
  qed
  have only: "\<forall>i<length dataset. retained dataset i \<longrightarrow> i < 30"
    if "load_experimental_data dataset = Inr (S, M)" for S M
    using load_Inr(3)[OF that] by fastforce
  from ok bad only show ?thesis
    by (auto simp: length_par_xs)
qed

theorem lookup_fails_from_row_30_witness:
  "load_experimental_data (replicate 30 [0, 0, 0, 0] @ [[1, 0, 0, 0]]) = Inl (IndexError 6 0 6)"
proof -
  let ?ds = "replicate 30 [0, 0, 0, 0] @ [[1, 0, 0, 0 :: real]]"
  have wf: "\<forall>row\<in>set ?ds. 4 \<le> length row" by simp
  have r: "retained ?ds 30" by (simp add: retained_def nth_append cutoff_growthrate_def)
  then have "30 < length ?ds \<and> retained ?ds 30 \<and> (30::nat) \<le> 30" by simp
  then have ex: "\<exists>i<length ?ds. retained ?ds i \<and> 30 \<le> i" by blast
  from lookup_fails_from_row_30[OF wf] ex
  obtain i where "i < length ?ds" "30 \<le> i" "load_experimental_data ?ds = Inl (IndexError (i div 5) 0 6)"
    by blast
  moreover from this have "i = 30" by simp
  ultimately show ?thesis by simp
qed

section \<open>Facts about the Grid Sweep Driver\<close>

lemma has_shape_zeros: "has_shape (zeros n m) n m"
  by (simp add: has_shape_def zeros_def)

lemma has_shape_nth: "has_shape a n m \<Longrightarrow> i < n \<Longrightarrow> length (a ! i) = m"
  by (simp add: has_shape_def)

lemma set2_ok:
  assumes "has_shape a n m" "i < n" "j < m"
  shows "set2 a i j v = Inr (a[i := (a ! i)[j := v]])"
    and "has_shape (a[i := (a ! i)[j := v]]) n m"
proof -
  from assms show "set2 a i j v = Inr (a[i := (a ! i)[j := v]])"
    by (simp add: set2_def has_shape_def)
  from assms have "length ((a ! i)[j := v]) = m"
    by (simp add: has_shape_nth)
  with assms(1) show "has_shape (a[i := (a ! i)[j := v]]) n m"
    by (auto simp: has_shape_def dest: set_update_subset_insert[THEN subsetD])
qed

lemma nth_update2:
  assumes "has_shape a n m" "i < n" "j < m" "i' < n" "j' < m"
  shows "a[i := (a ! i)[j := v]] ! i' ! j' = (if i' = i \<and> j' = j then v else a ! i' ! j')"
  using assms by (auto simp: has_shape_def nth_list_update)

lemma jnp_at_in_range:
  assumes "k < length xs"
  shows "jnp_at xs k = xs ! k"
proof -
  from assms have "min k (length xs - 1) = k" by arith
  then show ?thesis by (simp only: jnp_at_def)
qed

lemma sweep_row_correct:
  assumes "has_shape (loglikes st) n m" "i < n" "\<forall>j\<in>set js. j < m" "i < length Ks" "m \<le> length ks"
  shows "\<exists>st'. sweep_row f pd Ks ks i js st = Inr st' \<and> has_shape (loglikes st') n m
           \<and> printed st' = printed st @ map (Pair i) js
           \<and> (\<forall>i'<n. \<forall>j'<m. loglikes st' ! i' ! j' =
                 (if i' = i \<and> j' \<in> set js then f (candidate pd Ks ks i j') else loglikes st ! i' ! j'))"
  using assms
proof (induction js arbitrary: st)
  case Nil
  then show ?case by simp
next
  case (Cons j js)
  let ?v = "f (candidate pd Ks ks i j)"
  let ?a = "(loglikes st)[i := (loglikes st ! i)[j := ?v]]"
  let ?st1 = "st\<lparr>loglikes := ?a, printed := printed st @ [(i, j)]\<rparr>"
  from Cons.prems have j: "j < m" by simp
  with Cons.prems have jk: "j < length ks" by simp
  have cand: "at_set (at_set pd 1 (jnp_at Ks i)) 3 (jnp_at ks j) = candidate pd Ks ks i j"
    using Cons.prems(4) jk by (simp only: at_set_def candidate_def jnp_at_in_range)
  note s2 = set2_ok[OF Cons.prems(1,2) j, of ?v]
  have step: "sweep_row f pd Ks ks i (j # js) st = sweep_row f pd Ks ks i js ?st1"
    by (simp only: sweep_row.simps cand s2(1) andthen.simps)
  have shape1: "has_shape (loglikes ?st1) n m" using s2(2) by simp
  from Cons.IH[OF shape1 Cons.prems(2) _ Cons.prems(4,5)] Cons.prems(3)
  obtain st' where st': "sweep_row f pd Ks ks i js ?st1 = Inr st'" "has_shape (loglikes st') n m"
    "printed st' = printed ?st1 @ map (Pair i) js"
    "\<forall>i'<n. \<forall>j'<m. loglikes st' ! i' ! j' =
        (if i' = i \<and> j' \<in> set js then f (candidate pd Ks ks i j') else loglikes ?st1 ! i' ! j')"
    by auto
  have cells: "\<forall>i'<n. \<forall>j'<m. loglikes st' ! i' ! j' =
        (if i' = i \<and> j' \<in> set (j # js) then f (candidate pd Ks ks i j') else loglikes st ! i' ! j')"
  proof (intro allI impI)
    fix i' j' assume b: "i' < n" "j' < m"
    from st'(4) b have "loglikes st' ! i' ! j' =
        (if i' = i \<and> j' \<in> set js then f (candidate pd Ks ks i j') else ?a ! i' ! j')" by simp
    also have "?a ! i' ! j' = (if i' = i \<and> j' = j then ?v else loglikes st ! i' ! j')"
      by (rule nth_update2[OF Cons.prems(1,2) j b])
    finally show "loglikes st' ! i' ! j' =
        (if i' = i \<and> j' \<in> set (j # js) then f (candidate pd Ks ks i j') else loglikes st ! i' ! j')"
      by auto
  qed
  from st'(1,2,3) cells step show ?case by simp
qed

lemma sweep_rows_correct:
  assumes "has_shape (loglikes st) n m" "\<forall>i\<in>set rows. i < n" "\<forall>j\<in>set js. j < m"
    "n \<le> length Ks" "m \<le> length ks"
  shows "\<exists>st'. sweep_rows f pd Ks ks rows js st = Inr st' \<and> has_shape (loglikes st') n m
           \<and> printed st' = printed st @ concat (map (\<lambda>i. map (Pair i) js) rows)
           \<and> (\<forall>i'<n. \<forall>j'<m. loglikes st' ! i' ! j' =
                 (if i' \<in> set rows \<and> j' \<in> set js then f (candidate pd Ks ks i' j') else loglikes st ! i' ! j'))"
  using assms
proof (induction rows arbitrary: st)
  case Nil
  then show ?case by simp
next
  case (Cons i rows)
  from Cons.prems have i: "i < n" "i < length Ks" by auto
  from sweep_row_correct[OF Cons.prems(1) i(1) Cons.prems(3) i(2) Cons.prems(5), of f pd]
  obtain st1 where st1: "sweep_row f pd Ks ks i js st = Inr st1" "has_shape (loglikes st1) n m"
    "printed st1 = printed st @ map (Pair i) js"
    "\<forall>i'<n. \<forall>j'<m. loglikes st1 ! i' ! j' =
        (if i' = i \<and> j' \<in> set js then f (candidate pd Ks ks i j') else loglikes st ! i' ! j')"
    by blast
  from Cons.IH[OF st1(2) _ Cons.prems(3,4,5)] Cons.prems(2)
  obtain st' where st': "sweep_rows f pd Ks ks rows js st1 = Inr st'" "has_shape (loglikes st') n m"
    "printed st' = printed st1 @ concat (map (\<lambda>i. map (Pair i) js) rows)"
    "\<forall>i'<n. \<forall>j'<m. loglikes st' ! i' ! j' =
        (if i' \<in> set rows \<and> j' \<in> set js then f (candidate pd Ks ks i' j') else loglikes st1 ! i' ! j')"
    by auto
  have "\<forall>i'<n. \<forall>j'<m. loglikes st' ! i' ! j' =
        (if i' \<in> set (i # rows) \<and> j' \<in> set js then f (candidate pd Ks ks i' j') else loglikes st ! i' ! j')"
    using st'(4) st1(4) by auto
  with st1(1,3) st'(1,2,3) show ?case by simp
qed

lemma length_K_range: "length (K_range par) = 51"
  by (simp add: K_range_def length_linspace)

lemma length_kcm_range: "length (kcm_range par) = 51"
  by (simp add: kcm_range_def length_linspace)

text \<open>
  Claim C1. The sweep returns, both axes have 51 values, the result surface has 51 rows
  of 51 entries, and the entry at \<open>(i, j)\<close> is the objective function at the default
  candidate vector with entry 1 replaced by the \<open>i\<close>-th value of \<open>K_range\<close> and entry 3
  by the \<open>j\<close>-th value of \<open>kcm_range\<close>; entries 0 and 2 are those of the default.
\<close>

theorem grid_sweep_fills_surface:
  "\<exists>st. grid_sweep f par = Inr st
     \<and> length (K_range par) = 51 \<and> length (kcm_range par) = 51
     \<and> length (loglikes st) = 51 \<and> (\<forall>row\<in>set (loglikes st). length row = 51)
     \<and> (\<forall>i<51. \<forall>j<51. loglikes st ! i ! j
           = f ((parvec_default par)[1 := K_range par ! i, 3 := kcm_range par ! j]))
     \<and> (\<forall>i<51. \<forall>j<51. loglikes st ! i ! j
           = f [ln (a_r par / a_a par), K_range par ! i, ln (nu_max par), kcm_range par ! j])"
proof -
  let ?st0 = "\<lparr>loglikes = zeros 51 51, printed = []\<rparr>"
  have shape: "has_shape (loglikes ?st0) 51 51" by (simp add: has_shape_zeros)
  from sweep_rows_correct[OF shape, of "[0..<51]" "[0..<51]" "K_range par" "kcm_range par" f "parvec_default par"]
  obtain st where st: "sweep_rows f (parvec_default par) (K_range par) (kcm_range par) [0..<51] [0..<51] ?st0 = Inr st"
    "has_shape (loglikes st) 51 51"
    "\<forall>i'<51. \<forall>j'<51. loglikes st ! i' ! j' =
        (if i' \<in> set [0..<51] \<and> j' \<in> set [0..<51]
         then f (candidate (parvec_default par) (K_range par) (kcm_range par) i' j') else loglikes ?st0 ! i' ! j')"
    by (auto simp: length_K_range length_kcm_range)
  have run: "grid_sweep f par = Inr st"
    using st(1) by (simp add: grid_sweep_def Let_def length_K_range length_kcm_range)
  have cells: "\<forall>i<51. \<forall>j<51. loglikes st ! i ! j
           = f ((parvec_default par)[1 := K_range par ! i, 3 := kcm_range par ! j])"
    using st(3) by (simp add: candidate_def)
  have vec: "(parvec_default par)[1 := x, 3 := y] = [ln (a_r par / a_a par), x, ln (nu_max par), y]" for x y
    by (simp add: parvec_default_def)
  have cells': "\<forall>i<51. \<forall>j<51. loglikes st ! i ! j
           = f [ln (a_r par / a_a par), K_range par ! i, ln (nu_max par), kcm_range par ! j]"
    using cells by (simp only: vec)
  from run st(2) cells cells' show ?thesis
    by (simp add: has_shape_def length_K_range length_kcm_range)
qed

theorem grid_sweep_fills_surface_witness:
  "\<exists>st. grid_sweep (\<lambda>v. v ! 1 + 2 * v ! 3) \<lparr>a_r = 1, a_a = 1, K_e = 1, nu_max = 1, kcm = 1\<rparr> = Inr st
     \<and> (0::nat) < 51 \<and> (50::nat) < 51
     \<and> loglikes st ! 0 ! 50
         = K_range \<lparr>a_r = 1, a_a = 1, K_e = 1, nu_max = 1, kcm = 1\<rparr> ! 0
           + 2 * kcm_range \<lparr>a_r = 1, a_a = 1, K_e = 1, nu_max = 1, kcm = 1\<rparr> ! 50"
  using grid_sweep_fills_surface[of "\<lambda>v. v ! 1 + 2 * v ! 3" "\<lparr>a_r = 1, a_a = 1, K_e = 1, nu_max = 1, kcm = 1\<rparr>"]
  by auto

section \<open>Facts about the measurement errors\<close>

lemma read_error_row_Inr:
  assumes "read_error_row ds eds i (U, R) = Inr (U', R')"
  shows "if retained ds i
         then U' = U @ [(eds ! i ! 0, eds ! i ! 2)] \<and> R' = R @ [(eds ! i ! 4, eds ! i ! 5)]
              \<and> i < length eds \<and> 5 < length (eds ! i)
         else U' = U \<and> R' = R"
  using assms
  by (auto simp: andthen_Inr at2_Inr retained_def split: if_splits)

lemma read_error_rows_Inr:
  "read_error_rows ds eds js (U, R) = Inr (U', R') \<Longrightarrow>
     U' = U @ map (\<lambda>i. (eds ! i ! 0, eds ! i ! 2)) (filter (retained ds) js) \<and>
     R' = R @ map (\<lambda>i. (eds ! i ! 4, eds ! i ! 5)) (filter (retained ds) js) \<and>
     (\<forall>i\<in>set js. retained ds i \<longrightarrow> i < length eds \<and> 5 < length (eds ! i))"
proof (induction js arbitrary: U R)
  case Nil
  then show ?case by simp
next
  case (Cons i js)
  from Cons.prems obtain U1 R1 where
    step: "read_error_row ds eds i (U, R) = Inr (U1, R1)"
    and rest: "read_error_rows ds eds js (U1, R1) = Inr (U', R')"
    by (auto simp: andthen_Inr)
  note r = read_error_row_Inr[OF step] and ih = Cons.IH[OF rest]
  show ?case
  proof (cases "retained ds i")
    case True
    with r ih show ?thesis by simp
  next
    case False
    with r ih show ?thesis by simp
  qed
qed

lemma column_Inr:
  assumes "column a j = Inr c"
  shows "c = map (\<lambda>row. row ! j) a"
  using assms by (auto simp: column_def split: list.splits)

lemma exp_errors_of_Inr:
  assumes "exp_errors_of us eds = Inr es"
  shows "us \<noteq> [] \<and> es = map (\<lambda>_. (mean (map (\<lambda>row. row ! 0) eds), mean (map (\<lambda>row. row ! 2) eds))) us"
proof -
  from assms obtain c0 c2 where c: "column eds 0 = Inr c0" "column eds 2 = Inr c2"
    and r: "(if us = [] then Inl BroadcastError
             else Inr (map (\<lambda>_. (1 * mean c0, 1 * mean c2)) us)) = Inr es"
    by (auto simp: exp_errors_of_def andthen_Inr)
  from r have "us \<noteq> []" by (auto split: if_splits)
  with r column_Inr[OF c(1)] column_Inr[OF c(2)] show ?thesis by auto
qed

text \<open>
  Claim C4. When the error tables are built, every retained row is assigned the same pair
  of error scales: the mean of column 0 and the mean of column 2 of the whole error table.
  The per-row errors and the replicate counts are read but do not enter \<open>exp_errors\<close>.
\<close>

theorem error_scales_are_column_means:
  assumes "load_measurement_errors dataset error_dataset = Inr t"
  shows "length (exp_errors t) = length (retained_rows dataset)
         \<and> (\<forall>e\<in>set (exp_errors t).
               e = (mean (map (\<lambda>row. row ! 0) error_dataset), mean (map (\<lambda>row. row ! 2) error_dataset)))
         \<and> retained_rows dataset \<noteq> [] \<and> error_dataset \<noteq> []
         \<and> unscaled_errors t
             = map (\<lambda>i. (error_dataset ! i ! 0, error_dataset ! i ! 2)) (retained_rows dataset)
         \<and> replicates t
             = map (\<lambda>i. (error_dataset ! i ! 4, error_dataset ! i ! 5)) (retained_rows dataset)"
proof -
  from assms obtain us rs es where
    rd: "read_error_rows dataset error_dataset [0..<length dataset] ([], []) = Inr (us, rs)"
    and ee: "exp_errors_of us error_dataset = Inr es"
    and t: "t = \<lparr>unscaled_errors = us, replicates = rs, exp_errors = es\<rparr>"
    by (auto simp: load_measurement_errors_def andthen_Inr)
  from read_error_rows_Inr[OF rd] have
    us: "us = map (\<lambda>i. (error_dataset ! i ! 0, error_dataset ! i ! 2)) (retained_rows dataset)"
    and rs: "rs = map (\<lambda>i. (error_dataset ! i ! 4, error_dataset ! i ! 5)) (retained_rows dataset)"
    and inb: "\<forall>i\<in>set (retained_rows dataset). i < length error_dataset"
    by (simp_all add: retained_rows_def)
  from exp_errors_of_Inr[OF ee] have ne: "us \<noteq> []"
    and es: "es = map (\<lambda>_. (mean (map (\<lambda>row. row ! 0) error_dataset),
                            mean (map (\<lambda>row. row ! 2) error_dataset))) us"
    by simp_all
  from ne us have rne: "retained_rows dataset \<noteq> []" by auto
  then obtain i where "i \<in> set (retained_rows dataset)" by (cases "retained_rows dataset") auto
  with inb have "i < length error_dataset" by blast
  then have ene: "error_dataset \<noteq> []" by auto
  have len: "length es = length (retained_rows dataset)" by (simp add: es us)
  have allsame: "\<forall>e\<in>set es. e = (mean (map (\<lambda>row. row ! 0) error_dataset),
                                 mean (map (\<lambda>row. row ! 2) error_dataset))"
    by (auto simp: es)
  from len allsame rne ene us rs show ?thesis by (simp add: t)
qed

lemma example_errors:
  "load_measurement_errors example_dataset example_error_dataset
     = Inr \<lparr>unscaled_errors = [(0.02, 0.01), (0.06, 0.02)], replicates = [(4, 4), (1, 1)],
            exp_errors = [(0.04, 0.02), (0.04, 0.02)]\<rparr>"
  by (simp add: load_measurement_errors_def example_dataset_def example_error_dataset_def
      upt_rec at2_def cutoff_growthrate_def exp_errors_of_def column_def mean_def)

theorem error_scales_are_column_means_witness:
  "load_measurement_errors example_dataset example_error_dataset
     = Inr \<lparr>unscaled_errors = [(0.02, 0.01), (0.06, 0.02)], replicates = [(4, 4), (1, 1)],
            exp_errors = [(0.04, 0.02), (0.04, 0.02)]\<rparr>
   \<and> (0.04, 0.02) = (mean (map (\<lambda>row. row ! 0) example_error_dataset),
                       mean (map (\<lambda>row. row ! 2) example_error_dataset))
   \<and> length [(0.04, 0.02), (0.04 :: real, 0.02 :: real)] = length (retained_rows example_dataset)"
  using error_scales_are_column_means[OF example_errors] example_errors
  by simp

section \<open>Facts about the State Vector Constructor\<close>

lemma nth_at_col_set:
  assumes "k < length a" "k < length vals"
  shows "at_col_set a c vals ! k = (a ! k)[c := vals ! k]"
  using assms by (simp add: at_col_set_def)

lemma length_at_col_set: "length (at_col_set a c vals) = min (length a) (length vals)"
  by (simp add: at_col_set_def)

text \<open>
  Claim C3. With at least one setup and a default vector that has the entries 7 and 8, the
  constructor returns one state vector per setup; vector \<open>k\<close> has the length of the
  default, carries the nutrient quality of setup \<open>k\<close> at index 7 and its inducer
  concentration at index 8, and equals the default everywhere else. The default vector and
  the unswapped array are left as they were.
\<close>

theorem state_vectors_differ_from_default_at_7_and_8:
  assumes "setups \<noteq> []" "8 < length x0_default"
  shows "\<exists>t. construct_x0s x0_default setups = Inr t
           \<and> x0_default_of t = x0_default
           \<and> x0s_unswapped t = replicate (length setups) x0_default
           \<and> length (x0s t) = length setups
           \<and> (\<forall>k<length setups.
                 length (x0s t ! k) = length x0_default
                 \<and> x0s t ! k ! 7 = fst (setups ! k)
                 \<and> x0s t ! k ! 8 = snd (setups ! k)
                 \<and> (\<forall>c<length x0_default. c \<noteq> 7 \<longrightarrow> c \<noteq> 8 \<longrightarrow> x0s t ! k ! c = x0_default ! c))"
proof -
  let ?n = "length setups"
  let ?u = "replicate ?n (map (\<lambda>x. 1 * x) x0_default)"
  let ?s = "at_col_set ?u 7 (map fst setups)"
  let ?h = "at_col_set ?s 8 (map snd setups)"
  let ?t = "\<lparr>x0_default_of = x0_default, x0s_unswapped = ?u,
             x0s_swapped_s_values = ?s, x0s = ?h\<rparr>"
  have run: "construct_x0s x0_default setups = Inr ?t"
    using assms(1) by (simp add: construct_x0s_def Let_def)
  have u: "?u = replicate ?n x0_default" by simp
  have len: "length ?h = ?n" by (simp add: length_at_col_set)
  have row: "?h ! k = x0_default[7 := fst (setups ! k), 8 := snd (setups ! k)]" if "k < ?n" for k
    using that by (simp add: nth_at_col_set length_at_col_set)
  have cells: "length (?h ! k) = length x0_default
                 \<and> ?h ! k ! 7 = fst (setups ! k)
                 \<and> ?h ! k ! 8 = snd (setups ! k)
                 \<and> (\<forall>c<length x0_default. c \<noteq> 7 \<longrightarrow> c \<noteq> 8 \<longrightarrow> ?h ! k ! c = x0_default ! c)"
    if "k < ?n" for k
    unfolding row[OF that] using assms(2) by (simp add: nth_list_update)
  from run u len cells show ?thesis by simp
qed

theorem state_vectors_differ_from_default_at_7_and_8_witness:
  "\<exists>t. construct_x0s example_x0_default example_setups = Inr t
     \<and> x0_default_of t = example_x0_default
     \<and> x0s t ! 1 ! 7 = 0.08 \<and> x0s t ! 1 ! 8 = 0 \<and> x0s t ! 1 ! 9 = 19"
proof -
  have ne: "example_setups \<noteq> []" by (simp add: example_setups_def)
  have le: "8 < length example_x0_default" by (simp add: example_x0_default_def)
  from state_vectors_differ_from_default_at_7_and_8[OF ne le]
  obtain t where run: "construct_x0s example_x0_default example_setups = Inr t"
    and dflt: "x0_default_of t = example_x0_default"
    and cells: "\<forall>k<length example_setups.
        length (x0s t ! k) = length example_x0_default
        \<and> x0s t ! k ! 7 = fst (example_setups ! k)
        \<and> x0s t ! k ! 8 = snd (example_setups ! k)
        \<and> (\<forall>c<length example_x0_default. c \<noteq> 7 \<longrightarrow> c \<noteq> 8 \<longrightarrow>
              x0s t ! k ! c = example_x0_default ! c)"
    by blast
  have k: "1 < length example_setups" by (simp add: example_setups_def)
  from cells k have s: "x0s t ! 1 ! 7 = fst (example_setups ! 1)"
    and h: "x0s t ! 1 ! 8 = snd (example_setups ! 1)"
    and rest: "\<forall>c<length example_x0_default. c \<noteq> 7 \<longrightarrow> c \<noteq> 8 \<longrightarrow>
              x0s t ! 1 ! c = example_x0_default ! c"
    by blast+
  have "9 < length example_x0_default \<and> (9::nat) \<noteq> 7 \<and> (9::nat) \<noteq> 8"
    by (simp add: example_x0_default_def)
  with rest have nine: "x0s t ! 1 ! 9 = example_x0_default ! 9" by blast
  have "x0s t ! 1 ! 7 = 0.08" using s by (simp add: example_setups_def)
  moreover have "x0s t ! 1 ! 8 = 0" using h by (simp add: example_setups_def)
  moreover have "x0s t ! 1 ! 9 = 19" using nine by (simp add: example_x0_default_def)
  ultimately show ?thesis using run dflt by blast
qed

section \<open>Facts about the integrator configuration\<close>

text \<open>
  Claim C9. The call of the integrator uses Dopri5, an explicit Runge-Kutta solver of
  order 5, a PID step size controller with both tolerances \<open>1e-6\<close>, the time span from 0
  to 48 with initial step 0.1, no bound on the number of steps, and a steady state event
  with both tolerances 0.001.
\<close>

theorem integrator_configuration:
  "call_solver (diffeqsolve_forx0 x0) = Dopri5
   \<and> explicit_runge_kutta (call_solver (diffeqsolve_forx0 x0))
   \<and> solver_order (call_solver (diffeqsolve_forx0 x0)) = 5
   \<and> call_stepsize_controller (diffeqsolve_forx0 x0) = PIDController (1 / 10 ^ 6) (1 / 10 ^ 6)
   \<and> adaptive (call_stepsize_controller (diffeqsolve_forx0 x0))
   \<and> call_t0 (diffeqsolve_forx0 x0) = 0
   \<and> call_t1 (diffeqsolve_forx0 x0) = 48
   \<and> call_dt0 (diffeqsolve_forx0 x0) = 0.1
   \<and> call_max_steps (diffeqsolve_forx0 x0) = None
   \<and> call_discrete_terminating_event (diffeqsolve_forx0 x0) = Some (SteadyStateEvent 0.001 0.001)
   \<and> call_y0 (diffeqsolve_forx0 x0) = x0"
  by (simp add: diffeqsolve_forx0_def tf_def stepsize_controller_def rtol_def atol_def
      steady_state_stop_def)

end
